theory Spec2Isabelle
  imports Main
begin

section \<open>Thunks and lazy lists\<close>

text \<open>
  The repository builds lazy lists out of zero-argument closures:
  \<^verbatim>\<open>type Lazy<T> = () => T\<close> and
  \<^verbatim>\<open>type LazyList<T> = Lazy<{ head: Lazy<T>, tail: LazyList<T> } | null>\<close>.

  A closure of the host language may read and change captured variables, may throw and
  may fail to return. A thunk is therefore a function from the state it runs in to an
  \<open>outcome\<close>: it does not return (\<open>Diverge\<close>), it throws (\<open>Throw\<close>, with the state
  reached), or it returns a value (\<open>Return\<close>, with the state reached). The state type
  \<open>'s\<close> is arbitrary; a closure without side effects hands the state back unchanged.

  \<open>TypeError\<close> is what reading a property of \<^verbatim>\<open>null\<close> throws: the non-null
  assertion \<^verbatim>\<open>xs()!\<close> is erased by the compiler, so \<^verbatim>\<open>xs()!.head\<close> runs as
  \<^verbatim>\<open>xs().head\<close>. \<open>Raised\<close> stands for anything a caller's thunk throws.
\<close>

datatype error = TypeError | Raised string

datatype ('v, 's) outcome = Diverge | Throw error 's | Return 'v 's

type_synonym ('v, 's) Lazy = "'s \<Rightarrow> ('v, 's) outcome"

text \<open>The object \<^verbatim>\<open>{ head: ..., tail: ... }\<close>; \<^verbatim>\<open>null\<close> is \<open>None\<close>.\<close>

datatype ('h, 't) LazyNode = LazyNode (head: 'h) (tail: 't)

text \<open>
  A lazy list is a thunk of a node or \<^verbatim>\<open>null\<close>. Lists may be infinite, so the type
  is a codatatype; \<open>force xs s\<close> is the call \<^verbatim>\<open>xs()\<close> in state \<open>s\<close>.
\<close>

codatatype ('a, 's) LazyList =
  LazyList (force: "'s \<Rightarrow> ((('s \<Rightarrow> ('a, 's) outcome, ('a, 's) LazyList) LazyNode) option, 's) outcome")

type_synonym ('a, 's) node = "(('a, 's) Lazy, ('a, 's) LazyList) LazyNode"

subsection \<open>Numbers\<close>

text \<open>
  The host's \<^verbatim>\<open>number\<close> is an IEEE 754 double, and \<^verbatim>\<open>+\<close> and \<^verbatim>\<open>-\<close> return the exact
  result rounded to the nearest double, a tie going to the double whose 53-bit
  significand is even. The model carries the integer-valued numbers as \<open>int\<close>; fractions,
  \<^verbatim>\<open>NaN\<close>, and the infinities that sums beyond \<open>2^1024\<close> overflow to, are outside it. Every integer of magnitude up to \<open>2^53\<close> is a
  double. A larger one of \<open>b\<close> bits is rounded to a multiple of \<open>2^(b - 53)\<close>, the unit
  in the last place of its significand.
\<close>

fun bit_length :: "int \<Rightarrow> nat" where
  "bit_length n = (if n \<le> 0 then 0 else Suc (bit_length (n div 2)))"

declare bit_length.simps [simp del]

definition round_double :: "int \<Rightarrow> int" where
  "round_double x =
    (if \<bar>x\<bar> \<le> 2 ^ 53 then x
     else (let u = 2 ^ (bit_length \<bar>x\<bar> - 53);
               q = \<bar>x\<bar> div u;
               r = \<bar>x\<bar> mod u;
               q' = (if 2 * r < u \<or> (2 * r = u \<and> even q) then q else q + 1)
           in sgn x * (q' * u)))"

definition plus_number :: "int \<Rightarrow> int \<Rightarrow> int" where
  "plus_number a b = round_double (a + b)"

definition minus_number :: "int \<Rightarrow> int \<Rightarrow> int" where
  "minus_number a b = round_double (a - b)"

subsection \<open>lazy.ts: \<^verbatim>\<open>toLazyList\<close> and \<^verbatim>\<open>toJavascriptArray\<close>\<close>

text \<open>
  \<^verbatim>\<open>
  function toLazyList<T>(xs: T[]): LazyList<T> {
    return () => {
      return xs.length === 0 ? null : ({
          head: () => xs[0],
          tail: toLazyList(xs.slice(1))
        })
    };
  }
  \<close>
  The array is a list; \<^verbatim>\<open>xs[0]\<close> is read only when the array is not empty, and
  \<^verbatim>\<open>xs.slice(1)\<close> is \<open>drop 1 xs\<close>. This is the function on an array that nothing
  assigns to after the call, such as an array literal passed directly.
\<close>

primcorec toLazyList :: "'a list \<Rightarrow> ('a, 's) LazyList" where
  "toLazyList xs = LazyList (\<lambda>s.
     if length xs = 0 then Return None s
     else Return (Some (LazyNode (\<lambda>s'. Return (xs ! 0) s') (toLazyList (drop 1 xs)))) s)"

text \<open>
  The closure keeps the array by reference and reads it when it is forced, so an array
  that the caller still holds can change between the call of \<^verbatim>\<open>toLazyList\<close> and a
  forcing. \<open>toLazyList_shared undef xs\<close> is the function on such an array: \<open>xs s\<close> is
  what the array holds in state \<open>s\<close>. Forcing the list reads \<^verbatim>\<open>xs.length\<close> and copies
  \<^verbatim>\<open>xs.slice(1)\<close> in the state of the forcing; the copy is reachable from the tail only,
  so it holds the same in every later state. Forcing the head reads \<^verbatim>\<open>xs[0]\<close> in the
  state of that forcing, which on an array emptied in the meantime is the host's
  \<^verbatim>\<open>undefined\<close>, here \<open>undef\<close>.
\<close>

primcorec toLazyList_shared :: "'a \<Rightarrow> ('s \<Rightarrow> 'a list) \<Rightarrow> ('a, 's) LazyList" where
  "toLazyList_shared undef xs = LazyList (\<lambda>s.
     if length (xs s) = 0 then Return None s
     else Return (Some (LazyNode (\<lambda>s'. Return (case xs s' of [] \<Rightarrow> undef | x # _ \<Rightarrow> x) s')
                          (toLazyList_shared undef (\<lambda>_. drop 1 (xs s))))) s)"

text \<open>
  \<^verbatim>\<open>
  function toJavascriptArray<T>(xs: LazyList<T>): T[] {
    let current = xs();
    let ret: T[] = [];
    while (current !== null) {
      ret = ret.concat([current.head()]);
      current = current.tail();
    }
    return ret;
  }
  \<close>
  \<open>drain\<close> is the while loop on its two variables. The loop need not end, so it is a
  partial function: \<open>None\<close> is a run that does not return, because the loop goes on for
  ever or because a thunk it calls does not return.
\<close>

partial_function (option) drain ::
  "('a, 's) node option \<Rightarrow> 'a list \<Rightarrow> 's \<Rightarrow> ('a list, 's) outcome option" where
  "drain current ret s =
    (case current of
       None \<Rightarrow> Some (Return ret s)
     | Some node \<Rightarrow>
        (case head node s of
           Diverge \<Rightarrow> None
         | Throw e s1 \<Rightarrow> Some (Throw e s1)
         | Return v s1 \<Rightarrow>
            (case force (tail node) s1 of
               Diverge \<Rightarrow> None
             | Throw e s2 \<Rightarrow> Some (Throw e s2)
             | Return next s2 \<Rightarrow> drain next (ret @ [v]) s2)))"

text \<open>
  \<open>drain_from xs ret s\<close> forces \<open>xs\<close> and enters the loop with \<open>ret\<close> collected so far:
  the first line of the function, and the end of each iteration.
\<close>

definition drain_from ::
  "('a, 's) LazyList \<Rightarrow> 'a list \<Rightarrow> 's \<Rightarrow> ('a list, 's) outcome option" where
  "drain_from xs ret s =
    (case force xs s of
       Diverge \<Rightarrow> None
     | Throw e s1 \<Rightarrow> Some (Throw e s1)
     | Return current s1 \<Rightarrow> drain current ret s1)"

definition toJavascriptArray :: "('a, 's) LazyList \<Rightarrow> ('a list, 's) Lazy" where
  "toJavascriptArray xs s =
    (case drain_from xs [] s of None \<Rightarrow> Diverge | Some r \<Rightarrow> r)"

subsection \<open>The exercises: \<^verbatim>\<open>range\<close> and \<^verbatim>\<open>take\<close>\<close>

text \<open>
  \<^verbatim>\<open>
  function range(start: number): LazyList<number> {
    return () => ({ head: () => start, tail: range(start + 1) });
  }
  \<close>
  The sum is the host's.
\<close>

primcorec range_lazy :: "int \<Rightarrow> (int, 's) LazyList" where
  "range_lazy start =
     LazyList (\<lambda>s. Return (Some (LazyNode (\<lambda>s'. Return start s') (range_lazy (plus_number start 1)))) s)"

text \<open>
  \<^verbatim>\<open>
  function take<T>(n: number, xs: LazyList<T>): LazyList<T> {
    return () => {
      return n === 0 ? null : ({head: xs()!.head, tail: take(n - 1, xs()!.tail)});
    };
  }
  \<close>
  \<open>take_thunk n xs\<close> is the body of the returned closure, in evaluation order: the test
  of \<open>n\<close>; the first call \<^verbatim>\<open>xs()\<close> and the read of \<^verbatim>\<open>.head\<close>; the second call
  \<^verbatim>\<open>xs()\<close> and the read of \<^verbatim>\<open>.tail\<close>. The arguments of the inner call
  \<^verbatim>\<open>take(n - 1, ...)\<close> are left as a pair in the tail, and \<open>take_lazy\<close> ties the knot
  there. The count \<open>n\<close> may be negative, and then never reaches the test \<open>n = 0\<close>;
  the difference \<open>n - 1\<close> is the host's. Lemma \<open>force_take_lazy\<close> below gives the equation in the shape of the source.
\<close>

definition take_thunk ::
  "int \<Rightarrow> ('a, 's) LazyList \<Rightarrow>
     ((('a, 's) Lazy, int \<times> ('a, 's) LazyList) LazyNode option, 's) Lazy" where
  "take_thunk n xs s =
    (if n = 0 then Return None s
     else (case force xs s of
             Diverge \<Rightarrow> Diverge
           | Throw e s1 \<Rightarrow> Throw e s1
           | Return None s1 \<Rightarrow> Throw TypeError s1
           | Return (Some node1) s1 \<Rightarrow>
              (case force xs s1 of
                 Diverge \<Rightarrow> Diverge
               | Throw e s2 \<Rightarrow> Throw e s2
               | Return None s2 \<Rightarrow> Throw TypeError s2
               | Return (Some node2) s2 \<Rightarrow>
                   Return (Some (LazyNode (head node1) (minus_number n 1, tail node2))) s2)))"

primcorec take_lazy :: "int \<Rightarrow> ('a, 's) LazyList \<Rightarrow> ('a, 's) LazyList" where
  "take_lazy n xs =
     LazyList (\<lambda>s. map_outcome (map_option (map_LazyNode id (\<lambda>(n', t). take_lazy n' t))) id
                     (take_thunk n xs s))"



subsection \<open>Reading a list from outside\<close>

text \<open>
  lazy.ts reads its example list by chains of calls such as
  \<^verbatim>\<open>aLazyList()!.tail()!.tail()!.head()\<close>. \<open>descend k xs\<close> is the call \<^verbatim>\<open>xs()\<close>
  followed by \<open>k\<close> times \<^verbatim>\<open>!.tail()\<close>: each step reads \<^verbatim>\<open>.tail\<close> of the value in
  hand, which throws on \<^verbatim>\<open>null\<close>, and calls it.
\<close>

primrec descend :: "nat \<Rightarrow> ('a, 's) LazyList \<Rightarrow> (('a, 's) node option, 's) Lazy" where
  "descend 0 xs s = force xs s"
| "descend (Suc k) xs s =
    (case force xs s of
       Diverge \<Rightarrow> Diverge
     | Throw e s1 \<Rightarrow> Throw e s1
     | Return None s1 \<Rightarrow> Throw TypeError s1
     | Return (Some node) s1 \<Rightarrow> descend k (tail node) s1)"

text \<open>\<open>descend_head k xs\<close> ends the chain with \<^verbatim>\<open>!.head()\<close>, as lazy.ts does.\<close>

definition descend_head :: "nat \<Rightarrow> ('a, 's) LazyList \<Rightarrow> ('a, 's) Lazy" where
  "descend_head k xs s =
    (case descend k xs s of
       Diverge \<Rightarrow> Diverge
     | Throw e s1 \<Rightarrow> Throw e s1
     | Return None s1 \<Rightarrow> Throw TypeError s1
     | Return (Some node) s1 \<Rightarrow> head node s1)"



subsection \<open>How far a list is forced\<close>

text \<open>
  \<^verbatim>\<open>function bottom<T>(): T { return bottom(); }\<close> calls itself without end: as a
  thunk it does not return. \<open>two_then_bottom\<close> is a list written out like \<^verbatim>\<open>aLazyList\<close>
  in lazy.ts, with two elements and a tail that never returns:
  \<^verbatim>\<open>() => ({ head: () => 0, tail: () => ({ head: () => 1, tail: () => bottom() }) })\<close>.
\<close>

definition bottom :: "('v, 's) Lazy" where
  "bottom s = Diverge"

definition two_then_bottom :: "(int, 's) LazyList" where
  "two_then_bottom =
     LazyList (\<lambda>s. Return (Some (LazyNode (\<lambda>s'. Return 0 s')
       (LazyList (\<lambda>s. Return (Some (LazyNode (\<lambda>s'. Return 1 s')
         (LazyList bottom))) s)))) s)"

text \<open>
  \<open>agree k xs ys\<close>: the lists cannot be told apart within their first \<open>k\<close> nodes. In every
  state forcing them has the same outcome and reaches the same state, the two nodes carry
  the same head thunk, and the tails agree on \<open>k - 1\<close> nodes. Nothing is asked of what
  lies deeper.
\<close>

primrec agree :: "nat \<Rightarrow> ('a, 's) LazyList \<Rightarrow> ('a, 's) LazyList \<Rightarrow> bool" where
  "agree 0 xs ys = True"
| "agree (Suc k) xs ys =
    (\<forall>s. rel_outcome (rel_option (rel_LazyNode (=) (agree k))) (=) (force xs s) (force ys s))"

text \<open>The state a call ends in, when it ends.\<close>

fun final_state :: "('v, 's) outcome \<Rightarrow> 's option" where
  "final_state Diverge = None"
| "final_state (Throw e s) = Some s"
| "final_state (Return v s) = Some s"

text \<open>
  Counting calls of head thunks needs heads that count. For a counter \<open>c\<close> read from the
  state, a thunk \<open>keeps\<close> the counter when no call of it changes \<open>c\<close>, and \<open>ticks\<close> when
  every call of it that ends adds exactly one. \<open>counts_heads c k xs\<close>: within the first
  \<open>k\<close> nodes of \<open>xs\<close>, forcing a list keeps the counter and every head ticks. On such a
  list the growth of \<open>c\<close> over a run is the number of head calls of these nodes.
\<close>

definition keeps :: "('s \<Rightarrow> nat) \<Rightarrow> ('v, 's) Lazy \<Rightarrow> bool" where
  "keeps c th \<longleftrightarrow> (\<forall>s s'. final_state (th s) = Some s' \<longrightarrow> c s' = c s)"

definition ticks :: "('s \<Rightarrow> nat) \<Rightarrow> ('v, 's) Lazy \<Rightarrow> bool" where
  "ticks c th \<longleftrightarrow> (\<forall>s s'. final_state (th s) = Some s' \<longrightarrow> c s' = c s + 1)"

primrec counts_heads :: "('s \<Rightarrow> nat) \<Rightarrow> nat \<Rightarrow> ('a, 's) LazyList \<Rightarrow> bool" where
  "counts_heads c 0 xs = True"
| "counts_heads c (Suc k) xs =
    (keeps c (force xs) \<and>
     (\<forall>s node s'. force xs s = Return (Some node) s' \<longrightarrow>
        ticks c (head node) \<and> counts_heads c k (tail node)))"

text \<open>
  \<^verbatim>\<open>range\<close> with a head that counts its calls, the state being the counter:
  \<^verbatim>\<open>const counted_range = (start) => () => ({ head: () => { c++; return start }, tail: counted_range(start + 1) })\<close>.
\<close>

primcorec counted_range :: "int \<Rightarrow> (int, nat) LazyList" where
  "counted_range start =
     LazyList (\<lambda>c. Return (Some (LazyNode (\<lambda>c'. Return start (c' + 1)) (counted_range (plus_number start 1)))) c)"

subsection \<open>Lists without side effects\<close>

text \<open>
  \<open>pure_list xs\<close>: forcing \<open>xs\<close> has the same result in every state and hands the state
  back unchanged, whether it returns \<^verbatim>\<open>null\<close>, throws, or returns a node; in the last
  case the head thunk returns one value in every state, unchanged too, and the tail is such
  a list again, at every depth. Forcing such a list twice gives the same result twice.
\<close>

coinductive pure_list :: "('a, 's) LazyList \<Rightarrow> bool" where
  pure_null: "(\<forall>s. force xs s = Return None s) \<Longrightarrow> pure_list xs"
| pure_throw: "(\<forall>s. force xs s = Throw e s) \<Longrightarrow> pure_list xs"
| pure_node: "(\<forall>s. force xs s = Return (Some node) s) \<Longrightarrow> (\<forall>s. head node s = Return v s) \<Longrightarrow>
     pure_list (tail node) \<Longrightarrow> pure_list xs"

text \<open>
  \<open>quiet_list xs\<close> asks less: in every state, forcing \<open>xs\<close> ends in the state it started
  in, so do its heads, and its tails are quiet lists again. The result may depend on the
  state it is forced in.
\<close>

coinductive quiet_list :: "('a, 's) LazyList \<Rightarrow> bool" where
  quiet: "(\<And>s. final_state (force xs s) = Some s) \<Longrightarrow>
     (\<And>s node s1 s'. force xs s = Return (Some node) s1 \<Longrightarrow> final_state (head node s') = Some s') \<Longrightarrow>
     (\<And>s node s1. force xs s = Return (Some node) s1 \<Longrightarrow> quiet_list (tail node)) \<Longrightarrow>
     quiet_list xs"

text \<open>
  An array of numbers that the caller keeps and assigns to, the state being what the array
  holds: \<^verbatim>\<open>const cells = [1, 2, 3]; const shared_cells = toLazyList(cells)\<close>.
\<close>

datatype cell = Undefined | Num int

definition shared_cells :: "(cell, cell list) LazyList" where
  "shared_cells = toLazyList_shared Undefined (\<lambda>s. s)"

section \<open>Exact and rounded arithmetic\<close>

text \<open>Sums and differences of magnitude up to \<open>2^53\<close> are exact.\<close>

lemma plus_number_exact: "\<bar>a + b\<bar> \<le> 2 ^ 53 \<Longrightarrow> plus_number a b = a + b"
  by (simp add: plus_number_def round_double_def)

lemma minus_number_exact: "\<bar>a - b\<bar> \<le> 2 ^ 53 \<Longrightarrow> minus_number a b = a - b"
  by (simp add: minus_number_def round_double_def)

text \<open>Above, they are not: \<open>2^53 + 1\<close> is \<open>2^53\<close> again, and \<open>2^54 - 1\<close> is \<open>2^54\<close> again.\<close>

lemma plus_number_stuck: "plus_number (2 ^ 53) 1 = 2 ^ 53"
  by code_simp

lemma minus_number_stuck: "minus_number (2 ^ 54) 1 = 2 ^ 54"
  by code_simp

text \<open>Adding 1 again and again climbs to \<open>2^53\<close> and stays there.\<close>

lemma successor_saturates:
  "- (2 ^ 53) \<le> a \<Longrightarrow> a \<le> 2 ^ 53 \<Longrightarrow>
     ((\<lambda>x. plus_number x 1) ^^ k) a = min (a + int k) (2 ^ 53)"
proof (induction k)
  case 0
  then show ?case by simp
next
  case (Suc k)
  show ?case
  proof (cases "a + int k < 2 ^ 53")
    case True
    with Suc have "((\<lambda>x. plus_number x 1) ^^ k) a = a + int k" by simp
    moreover from True Suc.prems have "\<bar>a + int k + 1\<bar> \<le> 2 ^ 53" by simp
    ultimately show ?thesis using True by (simp add: plus_number_exact)
  next
    case False
    with Suc have "((\<lambda>x. plus_number x 1) ^^ k) a = 2 ^ 53" by simp
    with False plus_number_stuck show ?thesis by simp
  qed
qed

lemma successor_exact:
  "- (2 ^ 53) \<le> a \<Longrightarrow> a + int k \<le> 2 ^ 53 \<Longrightarrow> ((\<lambda>x. plus_number x 1) ^^ k) a = a + int k"
  by (simp add: successor_saturates)

section \<open>The closures unfolded\<close>

lemma force_take_lazy:
  "force (take_lazy n xs) s =
    (if n = 0 then Return None s
     else (case force xs s of
             Diverge \<Rightarrow> Diverge
           | Throw e s1 \<Rightarrow> Throw e s1
           | Return None s1 \<Rightarrow> Throw TypeError s1
           | Return (Some node1) s1 \<Rightarrow>
              (case force xs s1 of
                 Diverge \<Rightarrow> Diverge
               | Throw e s2 \<Rightarrow> Throw e s2
               | Return None s2 \<Rightarrow> Throw TypeError s2
               | Return (Some node2) s2 \<Rightarrow>
                   Return (Some (LazyNode (head node1)
                     (take_lazy (minus_number n 1) (tail node2)))) s2)))"
  by (simp add: take_thunk_def split: outcome.split option.split)

declare take_lazy.simps [simp del]



lemma force_range_lazy:
  "force (range_lazy start) s =
     Return (Some (LazyNode (\<lambda>s'. Return start s') (range_lazy (plus_number start 1)))) s"
  by simp

lemma force_toLazyList_Nil: "force (toLazyList []) s = Return None s"
  by simp

lemma force_toLazyList_Cons:
  "force (toLazyList (x # xs)) s =
     Return (Some (LazyNode (\<lambda>s'. Return x s') (toLazyList xs))) s"
  by simp

lemma drain_None: "drain None ret s = Some (Return ret s)"
  by (subst drain.simps) simp

lemma drain_Some:
  "drain (Some node) ret s =
    (case head node s of
       Diverge \<Rightarrow> None
     | Throw e s1 \<Rightarrow> Some (Throw e s1)
     | Return v s1 \<Rightarrow> drain_from (tail node) (ret @ [v]) s1)"
  by (subst drain.simps) (simp add: drain_from_def split: outcome.split)

lemma force_take_lazy_Suc:
  "int k < 2 ^ 53 \<Longrightarrow>
   force (take_lazy (1 + int k) xs) s =
    (case force xs s of
       Diverge \<Rightarrow> Diverge
     | Throw e s1 \<Rightarrow> Throw e s1
     | Return None s1 \<Rightarrow> Throw TypeError s1
     | Return (Some node1) s1 \<Rightarrow>
        (case force xs s1 of
           Diverge \<Rightarrow> Diverge
         | Throw e s2 \<Rightarrow> Throw e s2
         | Return None s2 \<Rightarrow> Throw TypeError s2
         | Return (Some node2) s2 \<Rightarrow>
             Return (Some (LazyNode (head node1) (take_lazy (int k) (tail node2)))) s2))"
proof -
  assume "int k < 2 ^ 53"
  then have "minus_number (1 + int k) 1 = int k" by (simp add: minus_number_exact)
  moreover have "1 + int k \<noteq> 0" by simp
  ultimately show ?thesis by (simp only: force_take_lazy if_False)
qed

text \<open>Draining a \<open>take\<close>: no iteration for count 0, one iteration for a count above.\<close>

lemma drain_from_take_0: "drain_from (take_lazy 0 xs) ret s = Some (Return ret s)"
  by (simp add: drain_from_def force_take_lazy drain_None)

lemma drain_from_take_Suc:
  "int k < 2 ^ 53 \<Longrightarrow>
   drain_from (take_lazy (1 + int k) xs) ret s =
    (case force xs s of
       Diverge \<Rightarrow> None
     | Throw e s1 \<Rightarrow> Some (Throw e s1)
     | Return None s1 \<Rightarrow> Some (Throw TypeError s1)
     | Return (Some node1) s1 \<Rightarrow>
        (case force xs s1 of
           Diverge \<Rightarrow> None
         | Throw e s2 \<Rightarrow> Some (Throw e s2)
         | Return None s2 \<Rightarrow> Some (Throw TypeError s2)
         | Return (Some node2) s2 \<Rightarrow>
            (case head node1 s2 of
               Diverge \<Rightarrow> None
             | Throw e s3 \<Rightarrow> Some (Throw e s3)
             | Return v s3 \<Rightarrow> drain_from (take_lazy (int k) (tail node2)) (ret @ [v]) s3)))"
  by (simp add: drain_from_def[of "take_lazy (1 + int k) xs"] force_take_lazy_Suc drain_Some
      split: outcome.split option.split)

section \<open>Arrays and lazy lists\<close>

lemma drain_from_toLazyList:
  "drain_from (toLazyList xs) ret s = Some (Return (ret @ xs) s)"
proof (induction xs arbitrary: ret)
  case Nil
  show ?case by (simp add: drain_from_def drain_None)
next
  case (Cons x xs)
  show ?case by (simp add: drain_from_def[of "toLazyList (x # xs)"] drain_Some Cons.IH)
qed

text \<open>
  C10. For every array \<open>xs\<close>, \<open>toJavascriptArray(toLazyList(xs))\<close> returns an array equal
  to \<open>xs\<close>, element for element and in order, and leaves the state as it was.
\<close>

theorem toLazyList_roundtrip: "toJavascriptArray (toLazyList xs) s = Return xs s"
  by (simp add: toJavascriptArray_def drain_from_toLazyList)

text \<open>
  The round trip on an array the caller still holds returns what the array holds when
  the drain starts: nothing assigns to it during the drain.
\<close>

lemma toLazyList_shared_const:
  "toLazyList_shared undef (\<lambda>_. xs) = toLazyList xs"
proof (coinduction arbitrary: xs)
  case Eq_LazyList
  show ?case
    by (cases xs) (auto simp: rel_fun_def LazyNode.rel_sel)
qed

lemma toLazyList_shared_roundtrip:
  "toJavascriptArray (toLazyList_shared undef xs) s = Return (xs s) s"
proof (cases "xs s")
  case Nil
  then show ?thesis by (simp add: toJavascriptArray_def drain_from_def drain_None)
next
  case (Cons x rest)
  then show ?thesis
    by (simp add: toJavascriptArray_def drain_from_def[of "toLazyList_shared undef xs"]
        drain_Some toLazyList_shared_const drain_from_toLazyList)
qed

section \<open>range\<close>

text \<open>
  C2. For every start, forcing \<open>range(start)\<close> gives a node, not \<^verbatim>\<open>null\<close>, and leaves
  the state as it was; the node's head, forced in any state, returns \<open>start\<close>; the node's
  tail is \<open>range(start + 1)\<close>, the sum being the host's.
\<close>

theorem range_lazy_node:
  "\<exists>node. force (range_lazy start) s = Return (Some node) s
     \<and> (\<forall>s'. head node s' = Return start s')
     \<and> tail node = range_lazy (plus_number start 1)"
  by simp

lemma descend_range_lazy:
  "descend k (range_lazy start) s =
     Return (Some (LazyNode (\<lambda>s'. Return (((\<lambda>x. plus_number x 1) ^^ k) start) s')
                    (range_lazy (((\<lambda>x. plus_number x 1) ^^ Suc k) start)))) s"
proof (induction k arbitrary: start)
  case 0
  show ?case by simp
next
  case (Suc k)
  show ?case by (simp add: Suc.IH funpow_Suc_right del: funpow.simps)
qed

text \<open>
  C3, as the code has it. At every integer start and every depth \<open>k \<ge> 0\<close>, forcing
  \<open>range(start)\<close> and going down \<open>k\<close> tails returns a node, never \<^verbatim>\<open>null\<close>, and the head
  of that node forces to \<open>start\<close> with 1 added \<open>k\<close> times by the host. For an integer
  \<open>start \<ge> -2^53\<close> with \<open>start + k \<le> 2^53\<close> these sums are exact and the head forces to
  \<open>start + k\<close>.
\<close>

theorem range_lazy_descend:
  "\<exists>node. descend k (range_lazy start) s = Return (Some node) s
     \<and> (\<forall>s'. head node s' = Return (((\<lambda>x. plus_number x 1) ^^ k) start) s')
     \<and> (- (2 ^ 53) \<le> start \<and> start + int k \<le> 2 ^ 53 \<longrightarrow>
          (\<forall>s'. head node s' = Return (start + int k) s'))"
  by (simp add: descend_range_lazy successor_exact del: funpow.simps)

theorem range_lazy_descend_witness:
  "- (2 ^ 53) \<le> (7::int) \<and> 7 + int 3 \<le> 2 ^ 53
   \<and> (\<exists>node. descend 3 (range_lazy 7) () = Return (Some node) ()
         \<and> (\<forall>s'. head node s' = Return (7 + int 3) s'))"
  using range_lazy_descend [of 3 7 "()"] by auto

text \<open>
  C3 as stated fails above \<open>2^53\<close>: two tails down from \<open>range(2^53)\<close> the head forces to
  \<open>2^53\<close>, not to \<open>2^53 + 2\<close>, because \<open>2^53 + 1\<close> is \<open>2^53\<close> again.
\<close>

theorem range_lazy_descend_counterexample:
  "descend_head 2 (range_lazy (2 ^ 53)) () = Return (2 ^ 53) ()
   \<and> descend_head 2 (range_lazy (2 ^ 53)) () \<noteq> Return (2 ^ 53 + 2) ()"
proof -
  have "((\<lambda>x. plus_number x 1) ^^ 2) (2 ^ 53) = 2 ^ 53"
    using successor_saturates [of "2 ^ 53" 2] by simp
  then show ?thesis
    by (simp add: descend_head_def descend_range_lazy del: funpow.simps)
qed

section \<open>take\<close>

text \<open>
  C1. Draining \<open>take(5, range(0))\<close> with \<open>toJavascriptArray\<close> returns, with exactly the
  array \<open>[0, 1, 2, 3, 4]\<close>, and draining \<open>take(3, range(100))\<close> returns exactly
  \<open>[100, 101, 102]\<close>.
\<close>

theorem take_range_examples:
  "toJavascriptArray (take_lazy 5 (range_lazy 0)) s = Return [0, 1, 2, 3, 4] s
   \<and> toJavascriptArray (take_lazy 3 (range_lazy 100)) s = Return [100, 101, 102] s"
  by (simp add: toJavascriptArray_def drain_from_def force_take_lazy drain_Some drain_None
      plus_number_exact minus_number_exact)

text \<open>
  C4. For every lazy list \<open>xs\<close>, whatever its thunk would do when called (return, throw or
  not return), forcing \<open>take(0, xs)\<close> returns \<^verbatim>\<open>null\<close> in the unchanged state: the result
  does not depend on \<open>xs\<close>, which is not called.
\<close>

theorem take_lazy_zero: "force (take_lazy 0 xs) s = Return None s"
  by (simp add: force_take_lazy)

lemma pure_list_range: "pure_list (range_lazy start)"
proof (coinduction arbitrary: start)
  case pure_list
  have "\<forall>s. force (range_lazy start) s =
          Return (Some (LazyNode (\<lambda>s'. Return start s') (range_lazy (plus_number start 1)))) s"
    by simp
  then show ?case by fastforce
qed






text \<open>
  Draining \<open>take(k, toLazyList(arr))\<close>: the first \<open>k\<close> elements when the array has that
  many, and the error of reading \<^verbatim>\<open>null\<close> when it is shorter.
\<close>

lemma drain_from_take_toLazyList:
  "int k \<le> 2 ^ 53 \<Longrightarrow>
   drain_from (take_lazy (int k) (toLazyList arr)) ret s =
     Some (if k \<le> length arr then Return (ret @ List.take k arr) s else Throw TypeError s)"
proof (induction k arbitrary: arr ret)
  case 0
  show ?case by (simp add: drain_from_take_0)
next
  case (Suc k)
  then have k: "int k < 2 ^ 53" and k': "int k \<le> 2 ^ 53" by simp_all
  show ?case
  proof (cases arr)
    case Nil
    then show ?thesis by (simp add: drain_from_take_Suc [OF k])
  next
    case (Cons x rest)
    then show ?thesis by (simp add: drain_from_take_Suc [OF k] Suc.IH [OF k'])
  qed
qed

lemma toJavascriptArray_take_toLazyList:
  "0 \<le> n \<Longrightarrow> n \<le> 2 ^ 53 \<Longrightarrow> toJavascriptArray (take_lazy n (toLazyList arr)) s =
     (if nat n \<le> length arr then Return (List.take (nat n) arr) s else Throw TypeError s)"
  using drain_from_take_toLazyList[of "nat n" arr "[]" s]
  by (simp add: toJavascriptArray_def)

text \<open>
  C6 at \<open>take(10, toLazyList([1, 2, 3]))\<close>: draining does not return \<open>[1, 2, 3]\<close>. After
  the three elements the loop forces \<open>take(7, xs)\<close> on the exhausted \<open>xs\<close>, which reads
  \<^verbatim>\<open>.head\<close> of \<^verbatim>\<open>null\<close>.
\<close>

theorem take_past_end_throws:
  "toJavascriptArray (take_lazy 10 (toLazyList [1, 2, 3 :: int])) s = Throw TypeError s"
  by (simp add: toJavascriptArray_def drain_from_def force_take_lazy drain_Some drain_None
      minus_number_exact)

text \<open>
  C7. For every \<open>n > 0\<close> and every \<open>xs\<close> that forces to \<^verbatim>\<open>null\<close>, forcing \<open>take(n, xs)\<close>
  does not return \<^verbatim>\<open>null\<close>: it throws the error of reading a property of \<^verbatim>\<open>null\<close>,
  right after the first call of \<open>xs\<close>. The witness is \<open>n = 1\<close> on the empty list.
\<close>

theorem take_lazy_null_deref:
  "0 < n \<Longrightarrow> force xs s = Return None s1 \<Longrightarrow> force (take_lazy n xs) s = Throw TypeError s1"
  by (simp add: force_take_lazy)

theorem take_lazy_null_deref_witness:
  "(0::int) < 1 \<and> force (toLazyList ([] :: int list)) () = Return None ()
   \<and> force (take_lazy 1 (toLazyList ([] :: int list))) () = Throw TypeError ()"
  using take_lazy_null_deref [of 1 "toLazyList ([] :: int list)" "()" "()"] by simp

section \<open>How much of the list a take touches\<close>

lemma drain_from_take_agree:
  "int k \<le> 2 ^ 53 \<Longrightarrow> agree k xs ys \<Longrightarrow>
     drain_from (take_lazy (int k) xs) ret s = drain_from (take_lazy (int k) ys) ret s"
proof (induction k arbitrary: xs ys ret s)
  case 0
  show ?case by (simp add: drain_from_take_0)
next
  case (Suc k)
  from Suc.prems(1) have k: "int k < 2 ^ 53" and k': "int k \<le> 2 ^ 53" by simp_all
  note st = drain_from_take_Suc [OF k]
  from Suc.prems(2) have rel:
    "\<And>s. rel_outcome (rel_option (rel_LazyNode (=) (agree k))) (=) (force xs s) (force ys s)"
    by simp
  show ?case
  proof (cases "force xs s")
    case Diverge
    with rel[of s] show ?thesis
      by (cases "force ys s") (simp_all add: st)
  next
    case (Throw e s1)
    with rel[of s] show ?thesis
      by (cases "force ys s") (simp_all add: st)
  next
    case (Return cur1 s1)
    with rel[of s] obtain cur1' where ys1: "force ys s = Return cur1' s1"
      and r1: "rel_option (rel_LazyNode (=) (agree k)) cur1 cur1'"
      by (cases "force ys s") simp_all
    show ?thesis
    proof (cases cur1)
      case None
      with r1 have "cur1' = None" by simp
      with None Return ys1 show ?thesis
        by (simp add: st)
    next
      case (Some n1)
      with r1 obtain m1 where m1: "cur1' = Some m1" and h1: "head n1 = head m1"
        by (cases cur1') (auto simp: LazyNode.rel_sel)
      show ?thesis
      proof (cases "force xs s1")
        case Diverge
        with rel[of s1] Return Some ys1 m1 show ?thesis
          by (cases "force ys s1") (simp_all add: st)
      next
        case (Throw e s2)
        with rel[of s1] Return Some ys1 m1 show ?thesis
          by (cases "force ys s1") (simp_all add: st)
      next
        case xs2: (Return cur2 s2)
        with rel[of s1] obtain cur2' where ys2: "force ys s1 = Return cur2' s2"
          and r2: "rel_option (rel_LazyNode (=) (agree k)) cur2 cur2'"
          by (cases "force ys s1") simp_all
        show ?thesis
        proof (cases cur2)
          case None
          with r2 have "cur2' = None" by simp
          with None Return Some ys1 m1 xs2 ys2 show ?thesis
            by (simp add: st)
        next
          case n2: (Some n2)
          with r2 obtain m2 where m2: "cur2' = Some m2" and t2: "agree k (tail n2) (tail m2)"
            by (cases cur2') (auto simp: LazyNode.rel_sel)
          have "\<And>r u. drain_from (take_lazy (int k) (tail n2)) r u
                     = drain_from (take_lazy (int k) (tail m2)) r u"
            using k' t2 by (rule Suc.IH)
          with Return Some ys1 m1 xs2 ys2 n2 m2 h1 show ?thesis
            by (simp add: st split: outcome.split)
        qed
      qed
    qed
  qed
qed


lemma keeps_final: "keeps c th \<Longrightarrow> final_state (th s) = Some s' \<Longrightarrow> c s' = c s"
  by (simp add: keeps_def)

lemma ticks_final: "ticks c th \<Longrightarrow> final_state (th s) = Some s' \<Longrightarrow> c s' = c s + 1"
  by (simp add: ticks_def)

lemma drain_from_take_counts:
  "int k \<le> 2 ^ 53 \<Longrightarrow> counts_heads c k xs \<Longrightarrow> drain_from (take_lazy (int k) xs) ret s = Some r \<Longrightarrow>
     final_state r = Some s' \<Longrightarrow> c s' \<le> c s + k"
proof (induction k arbitrary: xs ret s)
  case 0
  then show ?case by (auto simp: drain_from_take_0)
next
  case (Suc k)
  from Suc.prems(1) have k: "int k < 2 ^ 53" and k': "int k \<le> 2 ^ 53" by simp_all
  note st = drain_from_take_Suc [OF k]
  from Suc.prems(2) have kp: "keeps c (force xs)"
    and nd: "\<And>u node u'. force xs u = Return (Some node) u' \<Longrightarrow>
                ticks c (head node) \<and> counts_heads c k (tail node)"
    by auto
  from Suc.prems(3) have dr: "drain_from (take_lazy (1 + int k) xs) ret s = Some r" by simp
  show ?case
  proof (cases "force xs s")
    case Diverge
    with dr show ?thesis by (simp add: st)
  next
    case (Throw e s1)
    with dr Suc.prems(4) keeps_final[OF kp, of s s1] show ?thesis
      by (auto simp: st)
  next
    case (Return cur1 s1)
    then have c1: "c s1 = c s" using keeps_final[OF kp, of s s1] by simp
    show ?thesis
    proof (cases cur1)
      case None
      with Return dr Suc.prems(4) c1 show ?thesis by (auto simp: st)
    next
      case (Some n1)
      with Return nd have tk: "ticks c (head n1)" by blast
      show ?thesis
      proof (cases "force xs s1")
        case Diverge
        with Return Some dr show ?thesis by (simp add: st)
      next
        case (Throw e s2)
        with Return Some dr Suc.prems(4) c1 keeps_final[OF kp, of s1 s2] show ?thesis
          by (auto simp: st)
      next
        case xs2: (Return cur2 s2)
        then have c2: "c s2 = c s" using keeps_final[OF kp, of s1 s2] c1 by simp
        show ?thesis
        proof (cases cur2)
          case None
          with Return Some xs2 dr Suc.prems(4) c2 show ?thesis
            by (auto simp: st)
        next
          case n2: (Some n2)
          with xs2 nd have ch: "counts_heads c k (tail n2)" by blast
          show ?thesis
          proof (cases "head n1 s2")
            case Diverge
            with Return Some xs2 n2 dr show ?thesis by (simp add: st)
          next
            case (Throw e s3)
            with Return Some xs2 n2 dr Suc.prems(4) c2 ticks_final[OF tk, of s2 s3]
            show ?thesis by (auto simp: st)
          next
            case hd: (Return v s3)
            then have c3: "c s3 = c s + 1" using ticks_final[OF tk, of s2 s3] c2 by simp
            from Return Some xs2 n2 hd dr
            have "drain_from (take_lazy (int k) (tail n2)) (ret @ [v]) s3 = Some r"
              by (simp add: st)
            from Suc.IH[OF k' ch this Suc.prems(4)] c3 show ?thesis by simp
          qed
        qed
      qed
    qed
  qed
qed


text \<open>
  C8, as the code has it. For every integer \<open>n\<close> with \<open>0 \<le> n \<le> 2^53\<close>, draining
  \<open>take(n, xs)\<close> touches the first \<open>n\<close> nodes of \<open>xs\<close> and nothing deeper. Two lists that
  agree on their first \<open>n\<close> nodes, whatever either does deeper (return, throw, not return),
  drain to the same outcome under \<open>take(n, _)\<close>. And on a list whose heads count their
  calls, a drain of \<open>take(n, _)\<close> that ends, by returning or by throwing, has raised the
  counter by at most \<open>n\<close>.
\<close>

theorem take_lazy_bounded:
  "0 \<le> n \<Longrightarrow> n \<le> 2 ^ 53 \<Longrightarrow>
     (agree (nat n) xs ys \<longrightarrow>
        toJavascriptArray (take_lazy n xs) s = toJavascriptArray (take_lazy n ys) s)
     \<and> (counts_heads c (nat n) zs \<longrightarrow>
        (\<forall>u'. final_state (toJavascriptArray (take_lazy n zs) u) = Some u' \<longrightarrow> c u' \<le> c u + nat n))"
proof -
  assume "0 \<le> n" and "n \<le> 2 ^ 53"
  then obtain k where n: "n = int k" and k: "int k \<le> 2 ^ 53" by (metis nat_0_le)
  have "toJavascriptArray (take_lazy (int k) xs) s = toJavascriptArray (take_lazy (int k) ys) s"
    if "agree k xs ys"
    using drain_from_take_agree[OF k that] by (simp add: toJavascriptArray_def)
  moreover have "c u' \<le> c u + k"
    if ch: "counts_heads c k zs"
      and fin: "final_state (toJavascriptArray (take_lazy (int k) zs) u) = Some u'" for u'
  proof (cases "drain_from (take_lazy (int k) zs) [] u")
    case None
    with fin show ?thesis by (simp add: toJavascriptArray_def)
  next
    case (Some r)
    with fin have "final_state r = Some u'" by (simp add: toJavascriptArray_def)
    with k ch Some show ?thesis by (rule drain_from_take_counts)
  qed
  ultimately show ?thesis by (simp add: n)
qed

theorem take_lazy_bounded_witness:
  "(0::int) \<le> 2 \<and> (2::int) \<le> 2 ^ 53
   \<and> agree (nat 2) (range_lazy 0 :: (int, unit) LazyList) two_then_bottom
   \<and> toJavascriptArray (take_lazy 2 (range_lazy 0)) () = toJavascriptArray (take_lazy 2 two_then_bottom) ()
   \<and> counts_heads id (nat 2) (counted_range 0)
   \<and> final_state (toJavascriptArray (take_lazy 2 (counted_range 0)) 0) = Some 2
   \<and> id (2::nat) \<le> id 0 + nat 2"
proof -
  have a: "agree (nat 2) (range_lazy 0 :: (int, unit) LazyList) two_then_bottom"
    by (simp add: numeral_2_eq_2 two_then_bottom_def plus_number_exact)
  have c: "counts_heads id (nat 2) (counted_range 0)"
    by (simp add: numeral_2_eq_2 keeps_def ticks_def)
  have f: "final_state (toJavascriptArray (take_lazy 2 (counted_range 0)) 0) = Some 2"
    by (simp add: toJavascriptArray_def drain_from_def force_take_lazy drain_Some drain_None
        minus_number_exact)
  from take_lazy_bounded [of 2 "range_lazy 0" two_then_bottom "()" id "counted_range 0" 0] a c f
  show ?thesis by simp
qed

text \<open>
  Where \<open>n - 1\<close> is \<open>n\<close> again, \<open>take(n, xs)\<close> never counts down: every depth of
  \<open>take(n, range(a))\<close> is a node.
\<close>

lemma descend_take_stuck:
  "n \<noteq> 0 \<Longrightarrow> minus_number n 1 = n \<Longrightarrow>
   descend k (take_lazy n (range_lazy a)) s =
     Return (Some (LazyNode (\<lambda>s'. Return (((\<lambda>x. plus_number x 1) ^^ k) a) s')
                    (take_lazy n (range_lazy (((\<lambda>x. plus_number x 1) ^^ Suc k) a))))) s"
proof (induction k arbitrary: a)
  case 0
  then show ?case by (simp add: force_take_lazy)
next
  case (Suc k)
  from Suc.prems show ?case
    by (simp add: force_take_lazy Suc.IH funpow_Suc_right del: funpow.simps)
qed

text \<open>
  C8 as stated fails for a count above \<open>2^53\<close>. The host has \<open>2^54 - 1 = 2^54\<close>, so
  \<open>take(2^54, xs)\<close> is \<open>take(2^54, _)\<close> again one node down and does not end before
  \<open>xs\<close> does: \<open>2^54\<close> tails down \<open>take(2^54, range(0))\<close> there is a node, and its head is
  the head of the node of \<open>range(0)\<close> at that depth, beyond the first \<open>2^54\<close>. A count
  that does come down leaves \<^verbatim>\<open>null\<close> there, as \<open>take(2, range(0))\<close> does two tails down.
\<close>

theorem take_lazy_bounded_counterexample:
  "descend_head (2 ^ 54) (take_lazy (2 ^ 54) (range_lazy 0)) () = Return (2 ^ 53) ()
   \<and> descend_head (2 ^ 54) (range_lazy 0) () = Return (2 ^ 53) ()
   \<and> descend 2 (take_lazy 2 (range_lazy 0)) () = Return None ()"
proof -
  have e: "descend 2 (take_lazy 2 (range_lazy 0)) () = Return None ()"
    by (simp add: numeral_2_eq_2 force_take_lazy minus_number_exact)
  have m: "minus_number (2 ^ 54) 1 = 2 ^ 54" by (rule minus_number_stuck)
  have z: "(2 ^ 54 :: int) \<noteq> 0" by simp
  have v: "((\<lambda>x. plus_number x 1) ^^ (2 ^ 54)) 0 = 2 ^ 53"
    using successor_saturates [of 0 "2 ^ 54"] by simp
  show ?thesis
    by (simp only: e descend_head_def descend_take_stuck [OF z m] descend_range_lazy v
        outcome.case option.case LazyNode.sel simp_thms)
qed

section \<open>No side effects\<close>

lemma pure_list_toLazyList: "pure_list (toLazyList arr)"
proof (coinduction arbitrary: arr)
  case pure_list
  show ?case
  proof (cases arr)
    case Nil
    then show ?thesis by simp
  next
    case (Cons x rest)
    have "\<forall>s. force (toLazyList (x # rest)) s =
            Return (Some (LazyNode (\<lambda>s'. Return x s') (toLazyList rest))) s"
      by simp
    with Cons show ?thesis by fastforce
  qed
qed

lemma pure_list_take: "pure_list xs \<Longrightarrow> pure_list (take_lazy n xs)"
proof (coinduction arbitrary: n xs)
  case pure_list
  show ?case
  proof (cases "n = 0")
    case True
    then show ?thesis by (simp add: force_take_lazy)
  next
    case False
    from \<open>pure_list xs\<close> show ?thesis
    proof (cases rule: pure_list.cases)
      case pure_null
      with False have "\<forall>s. force (take_lazy n xs) s = Throw TypeError s"
        by (simp add: force_take_lazy)
      then show ?thesis by blast
    next
      case (pure_throw e)
      with False have "\<forall>s. force (take_lazy n xs) s = Throw e s"
        by (simp add: force_take_lazy)
      then show ?thesis by blast
    next
      case (pure_node node v)
      with False have "\<forall>s. force (take_lazy n xs) s =
          Return (Some (LazyNode (head node) (take_lazy (minus_number n 1) (tail node)))) s"
        by (simp add: force_take_lazy)
      with pure_node show ?thesis by fastforce
    qed
  qed
qed

lemma pure_list_force:
  "pure_list xs \<Longrightarrow>
     final_state (force xs s) = Some s \<and> force xs s' = map_outcome id (\<lambda>_. s') (force xs s)"
  by (erule pure_list.cases) auto


lemma pure_list_quiet: "pure_list xs \<Longrightarrow> quiet_list xs"
proof (coinduction arbitrary: xs)
  case quiet_list
  from \<open>pure_list xs\<close> show ?case
  proof (cases rule: pure_list.cases)
    case pure_null
    then show ?thesis by simp
  next
    case (pure_throw e)
    then show ?thesis by simp
  next
    case (pure_node node v)
    then show ?thesis by auto
  qed
qed

lemma quiet_list_force: "quiet_list xs \<Longrightarrow> final_state (force xs s) = Some s"
  by (erule quiet_list.cases) simp

lemma quiet_list_toLazyList_shared: "quiet_list (toLazyList_shared undef xs)"
proof (coinduction arbitrary: xs)
  case quiet_list
  show ?case by (auto split: if_splits)
qed

lemma quiet_list_take: "quiet_list xs \<Longrightarrow> quiet_list (take_lazy n xs)"
proof (coinduction arbitrary: n xs)
  case quiet_list
  from \<open>quiet_list xs\<close> have fin: "\<And>s. final_state (force xs s) = Some s"
    and hd: "\<And>s node s1 s'. force xs s = Return (Some node) s1 \<Longrightarrow>
               final_state (head node s') = Some s'"
    and tl: "\<And>s node s1. force xs s = Return (Some node) s1 \<Longrightarrow> quiet_list (tail node)"
    using quiet_list.simps [of xs] by blast+
  have shape: "force (take_lazy n xs) s =
      (if n = 0 then Return None s
       else (case force xs s of
               Diverge \<Rightarrow> Diverge
             | Throw e s1 \<Rightarrow> Throw e s
             | Return None s1 \<Rightarrow> Throw TypeError s
             | Return (Some node) s1 \<Rightarrow>
                 Return (Some (LazyNode (head node)
                   (take_lazy (minus_number n 1) (tail node)))) s))" for s
    using fin [of s] by (cases "force xs s") (auto simp: force_take_lazy split: option.split)
  have "final_state (force (take_lazy n xs) s) = Some s" for s
    using fin [of s] by (cases "force xs s") (auto simp: shape split: option.split)
  moreover have inv: "\<exists>x. force xs s = Return (Some x) s
        \<and> node = LazyNode (head x) (take_lazy (minus_number n 1) (tail x))"
    if "force (take_lazy n xs) s = Return (Some node) s1" for s node s1
    using that fin [of s]
    by (cases "force xs s") (auto simp: shape split: option.splits if_splits)
  have "final_state (head node s') = Some s'"
    if "force (take_lazy n xs) s = Return (Some node) s1" for s node s1 s'
    using inv [OF that] hd by auto
  moreover have "\<exists>m ys. tail node = take_lazy m ys \<and> quiet_list ys"
    if "force (take_lazy n xs) s = Return (Some node) s1" for s node s1
  proof -
    from inv [OF that] obtain x where x: "force xs s = Return (Some x) s"
      and node: "node = LazyNode (head x) (take_lazy (minus_number n 1) (tail x))" by blast
    from tl [OF x] node show ?thesis by auto
  qed
  ultimately show ?case by blast
qed

text \<open>
  C9, as the code has it. Forcing a list built from \<open>range\<close>, \<open>toLazyList\<close> and \<open>take\<close>,
  or any head or tail of it, has no side effect: it ends in the state it started in, so
  forcing the same list twice in a row gives the same result twice. A list built from
  \<open>range\<close>, \<open>take\<close> and \<open>toLazyList\<close> of an array that is not assigned to afterwards is
  moreover a pure list: its result is the same in every state. A list from
  \<open>toLazyList\<close> of an array that the caller still assigns to returns what the array
  holds when it is forced.
\<close>

theorem lists_have_no_side_effects:
  "quiet_list (toLazyList_shared undef arr)
   \<and> (pure_list xs \<longrightarrow> quiet_list xs)
   \<and> (quiet_list ys \<longrightarrow> quiet_list (take_lazy n ys))
   \<and> (quiet_list ys \<longrightarrow>
        final_state (force ys s) = Some s
        \<and> (\<forall>u. final_state (force ys s) = Some u \<longrightarrow> force ys u = force ys s))
   \<and> pure_list (range_lazy start)
   \<and> pure_list (toLazyList_shared undef (\<lambda>_. fixed))
   \<and> (pure_list xs \<longrightarrow> pure_list (take_lazy n xs))
   \<and> (pure_list xs \<longrightarrow>
        final_state (force xs s) = Some s \<and> force xs s' = map_outcome id (\<lambda>_. s') (force xs s))"
  by (simp add: quiet_list_toLazyList_shared pure_list_quiet quiet_list_take quiet_list_force
      pure_list_range toLazyList_shared_const pure_list_toLazyList pure_list_take pure_list_force)

theorem lists_have_no_side_effects_witness:
  "pure_list (range_lazy 0 :: (int, nat) LazyList)
   \<and> quiet_list (range_lazy 0 :: (int, nat) LazyList)
   \<and> quiet_list (take_lazy 2 (range_lazy 0) :: (int, nat) LazyList)
   \<and> pure_list (take_lazy 2 (range_lazy 0) :: (int, nat) LazyList)
   \<and> final_state (force (take_lazy 2 (range_lazy 0)) (0::nat)) = Some 0
   \<and> force (take_lazy 2 (range_lazy 0)) (5::nat) =
       map_outcome id (\<lambda>_. 5) (force (take_lazy 2 (range_lazy 0)) 0)
   \<and> quiet_list shared_cells
   \<and> quiet_list (take_lazy 2 shared_cells)
   \<and> final_state (force (take_lazy 2 shared_cells) [Num 1, Num 2, Num 3]) = Some [Num 1, Num 2, Num 3]"
proof -
  note a = lists_have_no_side_effects
    [of "0::int" "\<lambda>_. []" "range_lazy 0 :: (int, nat) LazyList"
        "range_lazy 0 :: (int, nat) LazyList" 2 0 0 "[]" 5]
  note d = lists_have_no_side_effects
    [of "0::int" "\<lambda>_. []" "take_lazy 2 (range_lazy 0) :: (int, nat) LazyList"
        "range_lazy 0 :: (int, nat) LazyList" 2 0 0 "[]" 5]
  note b = lists_have_no_side_effects
    [of Undefined "\<lambda>s. s" "range_lazy 0 :: (int, cell list) LazyList"
        shared_cells 2 "[Num 1, Num 2, Num 3]" 0 "[]" "[]"]
  note c = lists_have_no_side_effects
    [of Undefined "\<lambda>s. s" "range_lazy 0 :: (int, cell list) LazyList"
        "take_lazy 2 shared_cells" 2 "[Num 1, Num 2, Num 3]" 0 "[]" "[]"]
  from a have p: "pure_list (range_lazy 0 :: (int, nat) LazyList)" by blast
  with a have q: "quiet_list (range_lazy 0 :: (int, nat) LazyList)" by blast
  with a have qt: "quiet_list (take_lazy 2 (range_lazy 0) :: (int, nat) LazyList)" by blast
  from a p have pt: "pure_list (take_lazy 2 (range_lazy 0) :: (int, nat) LazyList)" by blast
  from d pt have f: "final_state (force (take_lazy 2 (range_lazy 0)) (0::nat)) = Some 0
     \<and> force (take_lazy 2 (range_lazy 0)) (5::nat) =
         map_outcome id (\<lambda>_. 5) (force (take_lazy 2 (range_lazy 0)) 0)" by blast
  from b have s: "quiet_list shared_cells" unfolding shared_cells_def by (rule conjunct1)
  with b have st: "quiet_list (take_lazy 2 shared_cells)" by blast
  with c have "final_state (force (take_lazy 2 shared_cells) [Num 1, Num 2, Num 3])
      = Some [Num 1, Num 2, Num 3]" by blast
  with p q qt pt f s st show ?thesis by blast
qed

text \<open>
  C9 as stated fails for \<open>toLazyList\<close> of an array that the caller assigns to between two
  forcings: with \<open>[1, 2, 3]\<close> in the array the head of the list forces to 1, and after
  \<^verbatim>\<open>cells[0] = 9\<close> the head of the same list forces to 9.
\<close>

theorem lists_have_no_side_effects_counterexample:
  "descend_head 0 shared_cells [Num 1, Num 2, Num 3] = Return (Num 1) [Num 1, Num 2, Num 3]
   \<and> descend_head 0 shared_cells ([Num 1, Num 2, Num 3][0 := Num 9])
       = Return (Num 9) [Num 9, Num 2, Num 3]
   \<and> \<not> pure_list shared_cells"
proof -
  have a: "descend_head 0 shared_cells [Num 1, Num 2, Num 3] = Return (Num 1) [Num 1, Num 2, Num 3]"
    by (simp add: descend_head_def shared_cells_def)
  have b: "descend_head 0 shared_cells ([Num 1, Num 2, Num 3][0 := Num 9])
       = Return (Num 9) [Num 9, Num 2, Num 3]"
    by (simp add: descend_head_def shared_cells_def)
  have e: "force shared_cells [] = Return None []" by (simp add: shared_cells_def)
  have n: "\<exists>node. force shared_cells [Num 1] = Return (Some node) [Num 1]"
    by (simp add: shared_cells_def)
  have "\<not> pure_list shared_cells"
  proof
    assume "pure_list shared_cells"
    then show False
    proof (cases rule: pure_list.cases)
      case pure_null
      with n show False by auto
    next
      case (pure_throw e)
      with n show False by auto
    next
      case (pure_node node v)
      with e show False by auto
    qed
  qed
  with a b show ?thesis by blast
qed

end
